theory Spec2Isabelle
  imports Main "HOL-Library.AList"
begin

section \<open>Python values, dictionaries and exceptions\<close>

text \<open>
  The module \<^verbatim>\<open>build_manpages.py\<close> works on Python strings and on dictionaries that
  keep their insertion order. A string is a \<^typ>\<open>string\<close>; a character is a code point
  below 256. A dictionary is an association list with distinct keys, in insertion
  order: \<^verbatim>\<open>d[k] = v\<close> is \<^const>\<open>AList.update\<close> (a key that is already present keeps
  its position and gets the new value, a new key goes to the end), \<^verbatim>\<open>d.get(k)\<close> is
  \<^const>\<open>map_of\<close>, \<^verbatim>\<open>k in d\<close> is \<open>map_of d k \<noteq> None\<close>, and \<^verbatim>\<open>d.items()\<close> is
  the list itself.

  A field of a page record holds a string, or a list of strings (\<^verbatim>\<open>authors\<close>).
\<close>

datatype pyval = Str string | StrList "string list"

type_synonym manpagedata = "(string \<times> pyval) list"

type_synonym manpages_data = "(string \<times> manpagedata) list"

text \<open>
  Every exception the modelled code can raise is a value. \<^verbatim>\<open>assert\<close> statements are
  modelled as executed (Python without \<^verbatim>\<open>-O\<close>).
\<close>

datatype error =
    AssertionError
  | UnpackError             \<comment> \<open>ValueError of \<^verbatim>\<open>oname, ovalue = option.split('=')\<close>\<close>
  | UnknownOption string    \<comment> \<open>ValueError("Unknown manpage configuration option: ...")\<close>
  | UnknownFormat pyval     \<comment> \<open>ValueError("Unknown format: ...")\<close>
  | AttributeError
  | UnboundLocalError
  | KeyError string
  | TypeError
  | OSError
  | DistutilsOptionError    \<comment> \<open>'manpages' option is required\<close>
  | CollaboratorError string

definition has_key :: "'k \<Rightarrow> ('k \<times> 'v) list \<Rightarrow> bool" where
  "has_key k d = (map_of d k \<noteq> None)"

text \<open>Truth value of \<^verbatim>\<open>d.get(k)\<close>: \<^verbatim>\<open>None\<close>, the empty string and the empty list are false.\<close>

fun truthy :: "pyval option \<Rightarrow> bool" where
  "truthy None = False"
| "truthy (Some (Str s)) = (s \<noteq> [])"
| "truthy (Some (StrList l)) = (l \<noteq> [])"

section \<open>String operations of the Python library\<close>

text \<open>\<^verbatim>\<open>s.split(sep)\<close> for a one-character separator: never empty, one more piece than
  there are separators.\<close>

fun py_split :: "char \<Rightarrow> string \<Rightarrow> string list" where
  "py_split sep [] = [[]]"
| "py_split sep (c # cs) =
     (if c = sep then [] # py_split sep cs
      else (case py_split sep cs of
              [] \<Rightarrow> [[c]]
            | w # ws \<Rightarrow> (c # w) # ws))"

text \<open>The characters below 256 that \<^verbatim>\<open>str.isspace\<close> accepts; \<^verbatim>\<open>s.strip()\<close> removes them
  from both ends.\<close>

definition whitespace :: "char list" where
  "whitespace =
     [CHR 0x09, CHR 0x0A, CHR 0x0B, CHR 0x0C, CHR 0x0D,
      CHR 0x1C, CHR 0x1D, CHR 0x1E, CHR 0x1F, CHR 0x20, CHR 0x85, CHR 0xA0]"

definition isspace :: "char \<Rightarrow> bool" where
  "isspace c = (c \<in> set whitespace)"

definition py_strip :: "string \<Rightarrow> string" where
  "py_strip s = rev (dropWhile isspace (rev (dropWhile isspace s)))"

text \<open>\<^verbatim>\<open>sep.join(xs)\<close>.\<close>

fun py_join :: "string \<Rightarrow> string list \<Rightarrow> string" where
  "py_join sep [] = []"
| "py_join sep [x] = x"
| "py_join sep (x # y # ys) = x @ sep @ py_join sep (y # ys)"

text \<open>\<^verbatim>\<open>os.path.basename\<close> (POSIX): what follows the last slash.\<close>

definition basename :: "string \<Rightarrow> string" where
  "basename p = rev (takeWhile (\<lambda>c. c \<noteq> CHR ''/'') (rev p))"

section \<open>parse_manpages_spec\<close>

text \<open>
  \<^verbatim>\<open>oname, ovalue = option.split('=')\<close>: the unpacking needs exactly two pieces.
\<close>

definition split_option :: "string \<Rightarrow> error + string \<times> string" where
  "split_option option =
     (case py_split CHR ''='' option of
        [oname, ovalue] \<Rightarrow> Inr (oname, ovalue)
      | _ \<Rightarrow> Inl UnpackError)"

text \<open>
  The \<^verbatim>\<open>if\<close>/\<^verbatim>\<open>elif\<close> chain of the inner loop, on the record built so far.
  \<open>attrs\<close> is \<^verbatim>\<open>MANPAGE_DATA_ATTRS\<close>, imported from \<^verbatim>\<open>argparse_manpage.manpage\<close>.
\<close>

definition store_option :: "string list \<Rightarrow> manpagedata \<Rightarrow> string \<Rightarrow> string \<Rightarrow> error + manpagedata" where
  "store_option attrs manpagedata oname ovalue =
     (if oname = ''function'' \<or> oname = ''object'' then
        (if has_key ''objtype'' manpagedata then Inl AssertionError
         else Inr (AList.update ''objname'' (Str ovalue)
                    (AList.update ''objtype'' (Str oname) manpagedata)))
      else if oname = ''pyfile'' \<or> oname = ''module'' then
        (if has_key ''import_type'' manpagedata then Inl AssertionError
         else let d = AList.update ''import_from'' (Str ovalue)
                        (AList.update ''import_type'' (Str oname) manpagedata)
              in Inr (if oname = ''pyfile''
                      then AList.update ''prog'' (Str (basename ovalue)) d
                      else d))
      else if oname = ''format'' then
        (if has_key ''format'' manpagedata then Inl AssertionError
         else Inr (AList.update oname (Str ovalue) manpagedata))
      else if oname = ''author'' then
        (case map_of manpagedata ''authors'' of
           None \<Rightarrow> Inr (AList.update ''authors'' (StrList [ovalue]) manpagedata)
         | Some (StrList l) \<Rightarrow> Inr (AList.update ''authors'' (StrList (l @ [ovalue])) manpagedata)
         | Some (Str s) \<Rightarrow> Inl AttributeError)
      else if oname \<in> set attrs \<and> oname \<noteq> ''authors'' then
        (if has_key oname manpagedata then Inl AssertionError
         else Inr (AList.update oname (Str ovalue) manpagedata))
      else Inl (UnknownOption oname))"

text \<open>The inner loop over the tokens that follow the output file name.\<close>

fun parse_options :: "string list \<Rightarrow> manpagedata \<Rightarrow> string list \<Rightarrow> error + manpagedata" where
  "parse_options attrs manpagedata [] = Inr manpagedata"
| "parse_options attrs manpagedata (option # options) =
     (case split_option option of
        Inl e \<Rightarrow> Inl e
      | Inr (oname, ovalue) \<Rightarrow>
          (case store_option attrs manpagedata oname ovalue of
             Inl e \<Rightarrow> Inl e
           | Inr manpagedata' \<Rightarrow> parse_options attrs manpagedata' options))"

text \<open>
  One iteration of the outer loop: the first token of \<^verbatim>\<open>spec.split(':')\<close> is the output
  file, the others are options. \<^verbatim>\<open>split\<close> never returns an empty list
  (\<open>py_split_not_Nil\<close> below), so the first case is never taken.
\<close>

definition parse_spec :: "string list \<Rightarrow> string \<Rightarrow> error + string \<times> manpagedata" where
  "parse_spec attrs spec =
     (case py_split CHR '':'' spec of
        [] \<Rightarrow> Inl UnboundLocalError
      | outputfile # options \<Rightarrow>
          (case parse_options attrs [] options of
             Inl e \<Rightarrow> Inl e
           | Inr manpagedata \<Rightarrow> Inr (outputfile, manpagedata)))"

text \<open>The outer loop, with \<^verbatim>\<open>manpages_data[outputfile] = manpagedata\<close> at its end.\<close>

fun parse_specs :: "string list \<Rightarrow> manpages_data \<Rightarrow> string list \<Rightarrow> error + manpages_data" where
  "parse_specs attrs manpages_data [] = Inr manpages_data"
| "parse_specs attrs manpages_data (spec # specs) =
     (case parse_spec attrs spec of
        Inl e \<Rightarrow> Inl e
      | Inr (outputfile, manpagedata) \<Rightarrow>
          parse_specs attrs (AList.update outputfile manpagedata manpages_data) specs)"

text \<open>The lines the outer loop runs over: \<^verbatim>\<open>string.strip().split('\n')\<close>.\<close>

definition spec_lines :: "string \<Rightarrow> string list" where
  "spec_lines str = py_split CHR 0x0A (py_strip str)"

definition parse_manpages_spec :: "string list \<Rightarrow> string \<Rightarrow> error + manpages_data" where
  "parse_manpages_spec attrs str = parse_specs attrs [] (spec_lines str)"

section \<open>get_pyproject_settings and finalize_options\<close>

text \<open>
  What \<^verbatim>\<open>tomllib.loads\<close> returns: strings, arrays and tables; every other TOML value
  (integer, float, boolean, date) is \<open>TOther\<close>, of which the code only takes \<^verbatim>\<open>str()\<close>.
\<close>

datatype toml = TString string | TArray "toml list" | TTable "(string \<times> toml) list" | TOther

text \<open>
  The file \<^verbatim>\<open>pyproject.toml\<close> as the function meets it: \<^verbatim>\<open>open\<close> or \<^verbatim>\<open>read\<close> raises
  (no such file, for one), or the text is not TOML, or it decodes to a table.
\<close>

datatype pyproject_toml = Unreadable | Undecodable | Document "(string \<times> toml) list"

definition DEFAULT_CMD_NAME :: string where
  "DEFAULT_CMD_NAME = ''build_manpages''"

text \<open>\<^verbatim>\<open>v[k]\<close> for a string key: KeyError on a table without the key, TypeError on
  anything that is not a table.\<close>

definition getitem :: "toml \<Rightarrow> string \<Rightarrow> error + toml" where
  "getitem v k =
     (case v of
        TTable d \<Rightarrow> (case map_of d k of None \<Rightarrow> Inl (KeyError k) | Some x \<Rightarrow> Inr x)
      | _ \<Rightarrow> Inl TypeError)"

definition then_do :: "error + 'a \<Rightarrow> ('a \<Rightarrow> error + 'b) \<Rightarrow> error + 'b" where
  "then_do r f = (case r of Inl e \<Rightarrow> Inl e | Inr x \<Rightarrow> f x)"

text \<open>\<^verbatim>\<open>"\n".join(value)\<close> raises TypeError unless every item is a string.\<close>

fun join_lines :: "toml list \<Rightarrow> error + string list" where
  "join_lines [] = Inr []"
| "join_lines (TString s # vs) = then_do (join_lines vs) (\<lambda>ss. Inr (s # ss))"
| "join_lines (_ # vs) = Inl TypeError"

text \<open>
  \<open>str_of\<close> is \<^verbatim>\<open>str()\<close> on the values that are neither strings nor lists. The result is
  \<open>Inr None\<close> where the function returns \<^verbatim>\<open>None\<close>, and \<open>Inl\<close> where an exception leaves
  it: only \<^verbatim>\<open>TOMLDecodeError\<close> and \<^verbatim>\<open>KeyError\<close> are caught.
\<close>

definition get_pyproject_settings :: "(toml \<Rightarrow> string) \<Rightarrow> pyproject_toml \<Rightarrow> error + string option" where
  "get_pyproject_settings str_of file =
     (case file of
        Unreadable \<Rightarrow> Inl OSError
      | Undecodable \<Rightarrow> Inr None
      | Document content \<Rightarrow>
          (case then_do (getitem (TTable content) ''tool'') (\<lambda>tool.
                then_do (getitem tool DEFAULT_CMD_NAME) (\<lambda>cmd.
                then_do (getitem cmd ''manpages'') (\<lambda>value.
                  (case value of
                     TArray vs \<Rightarrow> then_do (join_lines vs) (\<lambda>ss. Inr (py_join [CHR 0x0A] ss))
                   | TString s \<Rightarrow> Inr s
                   | _ \<Rightarrow> Inr (str_of value))))) of
             Inl (KeyError k) \<Rightarrow> Inr None
           | Inl e \<Rightarrow> Inl e
           | Inr s \<Rightarrow> Inr (Some s)))"

text \<open>
  The first three lines of \<^verbatim>\<open>finalize_options\<close>: \<open>manpages\<close> is \<^verbatim>\<open>self.manpages\<close>
  (\<^verbatim>\<open>None\<close> after \<^verbatim>\<open>initialize_options\<close>, or the option's text); \<^verbatim>\<open>or\<close> evaluates its
  right side only when the left one is false.
\<close>

definition manpages_setting :: "(toml \<Rightarrow> string) \<Rightarrow> string option \<Rightarrow> pyproject_toml \<Rightarrow> error + string" where
  "manpages_setting str_of manpages file =
     (case (case manpages of
              Some (c # cs) \<Rightarrow> Inr manpages
            | _ \<Rightarrow> get_pyproject_settings str_of file) of
        Inl e \<Rightarrow> Inl e
      | Inr None \<Rightarrow> Inl DistutilsOptionError
      | Inr (Some []) \<Rightarrow> Inl DistutilsOptionError
      | Inr (Some (c # cs)) \<Rightarrow> Inr (c # cs))"

text \<open>
  \<open>complete\<close> is \<^verbatim>\<open>get_manpage_data_from_distribution\<close> on the command's distribution,
  imported from \<^verbatim>\<open>argparse_manpage.manpage\<close>; it changes each record in place. The result
  is \<^verbatim>\<open>self.manpages_data\<close>.
\<close>

definition finalize_options ::
  "string list \<Rightarrow> (manpagedata \<Rightarrow> manpagedata) \<Rightarrow> (toml \<Rightarrow> string) \<Rightarrow> string option \<Rightarrow> pyproject_toml
     \<Rightarrow> error + manpages_data" where
  "finalize_options attrs complete str_of manpages file =
     then_do (manpages_setting str_of manpages file) (\<lambda>text.
     then_do (parse_manpages_spec attrs text) (\<lambda>manpages_data.
       Inr (map (\<lambda>(page, data). (page, complete data)) manpages_data)))"

section \<open>run\<close>

text \<open>
  The collaborators \<^verbatim>\<open>get_parser\<close>, \<^verbatim>\<open>Manpage\<close> (with \<^verbatim>\<open>str\<close> of the page),
  \<^verbatim>\<open>write_to_filename\<close> and \<^verbatim>\<open>ManPageWriter(...).write\<close> are parameters; each may raise.
  What \<^verbatim>\<open>run\<close> does is the list of its prints and collaborator calls, in order, with
  the exception that ended it, if any.
\<close>

datatype event =
    Print string
  | Call_get_parser pyval pyval pyval pyval "pyval option"
  | Call_Manpage pyval manpagedata
  | Call_write_to_filename string string
  | Call_ManPageWriter_write manpagedata string

record 'p collaborators =
  get_parser :: "pyval \<Rightarrow> pyval \<Rightarrow> pyval \<Rightarrow> pyval \<Rightarrow> pyval option \<Rightarrow> error + 'p"
  Manpage_str :: "'p \<Rightarrow> pyval \<Rightarrow> manpagedata \<Rightarrow> error + string"
  write_to_filename :: "string \<Rightarrow> string \<Rightarrow> error option"
  ManPageWriter_write :: "'p \<Rightarrow> manpagedata \<Rightarrow> string \<Rightarrow> error option"

text \<open>\<^verbatim>\<open>data[k]\<close>.\<close>

definition data_item :: "manpagedata \<Rightarrow> string \<Rightarrow> error + pyval" where
  "data_item data k = (case map_of data k of None \<Rightarrow> Inl (KeyError k) | Some v \<Rightarrow> Inr v)"

text \<open>The loop body from \<^verbatim>\<open>get_parser\<close> on.\<close>

definition generate :: "'p collaborators \<Rightarrow> string \<Rightarrow> manpagedata \<Rightarrow> event list \<times> error option" where
  "generate c page data =
     (case data_item data ''import_type'' of Inl e \<Rightarrow> ([], Some e) | Inr import_type \<Rightarrow>
      case data_item data ''import_from'' of Inl e \<Rightarrow> ([], Some e) | Inr import_from \<Rightarrow>
      case data_item data ''objname'' of Inl e \<Rightarrow> ([], Some e) | Inr objname \<Rightarrow>
      case data_item data ''objtype'' of Inl e \<Rightarrow> ([], Some e) | Inr objtype \<Rightarrow>
      let prog = map_of data ''prog'';
          called = [Call_get_parser import_type import_from objname objtype prog]
      in case get_parser c import_type import_from objname objtype prog of
           Inl e \<Rightarrow> (called, Some e)
         | Inr parser \<Rightarrow>
             let format = (case map_of data ''format'' of None \<Rightarrow> Str ''pretty'' | Some f \<Rightarrow> f)
             in if format = Str ''pretty'' \<or> format = Str ''single-commands-section'' then
                  (case Manpage_str c parser format data of
                     Inl e \<Rightarrow> (called @ [Call_Manpage format data], Some e)
                   | Inr text \<Rightarrow>
                       (called @ [Call_Manpage format data, Call_write_to_filename text page],
                        write_to_filename c text page))
                else if format = Str ''old'' then
                  (called @ [Call_ManPageWriter_write data page],
                   ManPageWriter_write c parser data page)
                else (called, Some (UnknownFormat format)))"

text \<open>The loop of \<^verbatim>\<open>run\<close> over \<^verbatim>\<open>self.manpages_data.items()\<close>; the \<^verbatim>\<open>return\<close> in the
  first branch leaves the whole method.\<close>

fun run :: "'p collaborators \<Rightarrow> manpages_data \<Rightarrow> event list \<times> error option" where
  "run c [] = ([], None)"
| "run c ((page, data) # items) =
     (if truthy (map_of data ''manfile'') then ([Print (''using pre-written '' @ page)], None)
      else (case generate c page data of
              (evs, Some e) \<Rightarrow> (Print (''generating '' @ page) # evs, Some e)
            | (evs, None) \<Rightarrow>
                (case run c items of
                   (evs', r) \<Rightarrow> (Print (''generating '' @ page) # evs @ evs', r))))"

section \<open>Notions used in the statements\<close>

text \<open>
  The values of the \<^verbatim>\<open>author=\<close> tokens among the option tokens of a line, in the order
  of the line. This follows the wording of the specification, not a function of the
  source.
\<close>

definition author_values :: "string list \<Rightarrow> string list" where
  "author_values options =
     concat (map (\<lambda>option. case split_option option of
                               Inr (oname, ovalue) \<Rightarrow> if oname = ''author'' then [ovalue] else []
                             | Inl e \<Rightarrow> []) options)"

text \<open>The \<^verbatim>\<open>authors\<close> field of a record is the list \<open>l\<close>; the key is absent while the
  list is empty.\<close>

definition authors_are :: "manpagedata \<Rightarrow> string list \<Rightarrow> bool" where
  "authors_are d l \<longleftrightarrow> map_of d ''authors'' = (if l = [] then None else Some (StrList l))"

text \<open>The three fields that a \<^verbatim>\<open>pyfile=\<close> option writes.\<close>

definition from_pyfile :: "string \<Rightarrow> manpagedata \<Rightarrow> bool" where
  "from_pyfile ovalue d \<longleftrightarrow>
     map_of d ''import_type'' = Some (Str ''pyfile'') \<and>
     map_of d ''import_from'' = Some (Str ovalue) \<and>
     map_of d ''prog'' = Some (Str (basename ovalue))"

section \<open>Facts about the string operations and the two loops\<close>

lemma py_split_not_Nil: "py_split sep s \<noteq> []"
  by (induction s) (auto split: list.splits)

lemma py_split_no_sep: "sep \<notin> set s \<Longrightarrow> py_split sep s = [s]"
  by (induction s) auto

lemma py_split_append: "sep \<notin> set a \<Longrightarrow> py_split sep (a @ sep # b) = a # py_split sep b"
  by (induction a) auto

lemma length_py_split: "length (py_split sep s) = Suc (count_list s sep)"
  by (induction s) (auto split: list.splits)

lemma parse_options_append:
  "parse_options attrs md (xs @ ys) =
     (case parse_options attrs md xs of Inl e \<Rightarrow> Inl e | Inr md' \<Rightarrow> parse_options attrs md' ys)"
  by (induction xs arbitrary: md) (auto split: sum.splits)

lemma parse_specs_append:
  "parse_specs attrs acc (xs @ ys) =
     (case parse_specs attrs acc xs of Inl e \<Rightarrow> Inl e | Inr acc' \<Rightarrow> parse_specs attrs acc' ys)"
  by (induction xs arbitrary: acc) (auto split: sum.splits)

section \<open>The generation loop stops at the first pre-written page\<close>

text \<open>While no record has a true \<^verbatim>\<open>manfile\<close> and nothing raises, the loop goes on with the
  rest of the list.\<close>

lemma run_append_reached:
  assumes "\<forall>(p, d) \<in> set pre. \<not> truthy (map_of d ''manfile'')"
      and "run c pre = (evs, None)"
  shows "run c (pre @ rest) = (evs @ fst (run c rest), snd (run c rest))"
  using assms
proof (induction pre arbitrary: evs)
  case Nil
  then show ?case by simp
next
  case (Cons a pre)
  obtain page data where a: "a = (page, data)" by (cases a)
  from Cons.prems(1) a have nm: "\<not> truthy (map_of data ''manfile'')" by simp
  obtain g r where g: "generate c page data = (g, r)" by (cases "generate c page data")
  obtain evs' r' where rp: "run c pre = (evs', r')" by (cases "run c pre")
  from Cons.prems(2) a nm g rp have r: "r = None" and r': "r' = None"
    and evs: "evs = Print (''generating '' @ page) # g @ evs'"
    by (auto split: option.splits)
  from Cons.prems(1) have "\<forall>(p, d) \<in> set pre. \<not> truthy (map_of d ''manfile'')" by simp
  from Cons.IH[OF this] rp r' have "run c (pre @ rest) = (evs' @ fst (run c rest), snd (run c rest))"
    by simp
  with a nm g r evs show ?case by simp
qed

text \<open>
  Claim C1. Let \<open>(page, data)\<close> be the first record of the list whose \<^verbatim>\<open>manfile\<close> is
  true, and let the loop reach it (the records \<open>pre\<close> before it ran without an exception,
  with the events \<open>evs\<close>). Then the whole run is \<open>evs\<close> followed by the one notice
  \<^verbatim>\<open>using pre-written <page>\<close>, and it ends normally there: no \<^verbatim>\<open>get_parser\<close>, \<^verbatim>\<open>Manpage\<close>
  or write call is made for this record, and nothing at all happens for the records
  \<open>post\<close> after it, whatever they are.
\<close>

theorem run_stops_at_first_manfile:
  assumes "\<forall>(p, d) \<in> set pre. \<not> truthy (map_of d ''manfile'')"
      and "truthy (map_of data ''manfile'')"
      and "run c pre = (evs, None)"
  shows "run c (pre @ (page, data) # post) = (evs @ [Print (''using pre-written '' @ page)], None)"
  using run_append_reached[OF assms(1) assms(3), of "(page, data) # post"] assms(2) by simp

theorem run_stops_at_first_manfile_witness:
  "run \<lparr>get_parser = (\<lambda>a b c d e. Inr ()), Manpage_str = (\<lambda>p f d. Inr ''.TH''),
        write_to_filename = (\<lambda>t p. None), ManPageWriter_write = (\<lambda>p d f. None)\<rparr>
     ([(''a.1'', [(''import_type'', Str ''module''), (''import_from'', Str ''x''),
                  (''objname'', Str ''f''), (''objtype'', Str ''function'')])]
      @ (''b.1'', [(''manfile'', Str ''b.1'')])
      # [(''c.1'', [(''import_type'', Str ''module''), (''import_from'', Str ''y''),
                    (''objname'', Str ''g''), (''objtype'', Str ''function'')])])
   = ([Print ''generating a.1'',
       Call_get_parser (Str ''module'') (Str ''x'') (Str ''f'') (Str ''function'') None,
       Call_Manpage (Str ''pretty'')
         [(''import_type'', Str ''module''), (''import_from'', Str ''x''),
          (''objname'', Str ''f''), (''objtype'', Str ''function'')],
       Call_write_to_filename ''.TH'' ''a.1'']
      @ [Print (''using pre-written '' @ ''b.1'')], None)"
  by (rule run_stops_at_first_manfile) (simp_all add: generate_def data_item_def)

section \<open>Where a parse fails\<close>

lemmas eval_defs = parse_manpages_spec_def spec_lines_def py_strip_def isspace_def whitespace_def
  parse_spec_def split_option_def store_option_def has_key_def basename_def

text \<open>The loops are left at the first token that raises: when the lines before it and the
  tokens before it in its line went through, its exception is the result.\<close>

lemma parse_options_fails_with:
  assumes "parse_options attrs d0 pre = Inr d"
      and "split_option option = Inr (oname, ovalue)"
      and "store_option attrs d oname ovalue = Inl err"
  shows "parse_options attrs d0 (pre @ option # post) = Inl err"
  using assms by (simp add: parse_options_append)

lemma parse_spec_fails_with:
  assumes "py_split CHR '':'' spec = outputfile # pre @ option # post"
      and "parse_options attrs [] pre = Inr d"
      and "split_option option = Inr (oname, ovalue)"
      and "store_option attrs d oname ovalue = Inl err"
  shows "parse_spec attrs spec = Inl err"
  using assms(1) parse_options_fails_with[OF assms(2-4), of post] by (simp add: parse_spec_def)

lemma parse_spec_fails_split:
  assumes "py_split CHR '':'' spec = outputfile # pre @ option # post"
      and "parse_options attrs [] pre = Inr d"
      and "split_option option = Inl err"
  shows "parse_spec attrs spec = Inl err"
  using assms by (simp add: parse_spec_def parse_options_append)

lemma parse_fails_with:
  assumes "spec_lines str = before @ spec # after"
      and "parse_specs attrs [] before = Inr acc"
      and "parse_spec attrs spec = Inl err"
  shows "parse_manpages_spec attrs str = Inl err"
  using assms by (simp add: parse_manpages_spec_def parse_specs_append)

text \<open>A token that no record accepts makes the parse fail wherever it stands.\<close>

lemma parse_options_fails:
  assumes "split_option option = Inr (oname, ovalue)"
      and "\<And>d. \<exists>e. store_option attrs d oname ovalue = Inl e"
  shows "\<exists>e. parse_options attrs d0 (pre @ option # post) = Inl e"
proof (cases "parse_options attrs d0 pre")
  case (Inl e)
  then show ?thesis by (simp add: parse_options_append)
next
  case (Inr d)
  from assms(2) obtain e where "store_option attrs d oname ovalue = Inl e" by blast
  with Inr assms(1) show ?thesis by (simp add: parse_options_append)
qed

lemma parse_fails:
  assumes "spec_lines str = before @ spec # after"
      and "py_split CHR '':'' spec = outputfile # pre @ option # post"
      and "split_option option = Inr (oname, ovalue)"
      and "\<And>d. \<exists>e. store_option attrs d oname ovalue = Inl e"
  shows "\<exists>e. parse_manpages_spec attrs str = Inl e"
proof -
  from parse_options_fails[OF assms(3,4)] obtain e
    where "parse_options attrs [] (pre @ option # post) = Inl e" by blast
  with assms(2) have s: "parse_spec attrs spec = Inl e" by (simp add: parse_spec_def)
  show ?thesis
  proof (cases "parse_specs attrs [] before")
    case (Inl e')
    with assms(1) show ?thesis by (simp add: parse_manpages_spec_def parse_specs_append)
  next
    case (Inr acc)
    from parse_fails_with[OF assms(1) Inr s] show ?thesis by blast
  qed
qed

lemma store_option_unknown:
  assumes "oname \<notin> {''function'', ''object'', ''pyfile'', ''module'', ''format'', ''author''}"
      and "oname \<notin> set attrs \<or> oname = ''authors''"
  shows "store_option attrs d oname ovalue = Inl (UnknownOption oname)"
  using assms by (auto simp: store_option_def)

lemma store_option_duplicate:
  assumes "(oname = ''function'' \<or> oname = ''object'') \<and> has_key ''objtype'' d
         \<or> (oname = ''pyfile'' \<or> oname = ''module'') \<and> has_key ''import_type'' d
         \<or> oname = ''format'' \<and> has_key ''format'' d"
  shows "store_option attrs d oname ovalue = Inl AssertionError"
  using assms by (auto simp: store_option_def)

text \<open>
  Claim C6. Let a line \<open>spec\<close> of the text have, after its output file name, an option
  token \<open>option\<close> whose name \<open>oname\<close> is none of \<^verbatim>\<open>function\<close>, \<^verbatim>\<open>object\<close>, \<^verbatim>\<open>pyfile\<close>,
  \<^verbatim>\<open>module\<close>, \<^verbatim>\<open>format\<close>, \<^verbatim>\<open>author\<close> and is not in \<^verbatim>\<open>MANPAGE_DATA_ATTRS\<close>. Then the parse
  of the whole text fails, so no mapping is returned; and when the parser gets to that
  token (the lines before it and the tokens before it in its line raised nothing), it
  fails there, at once, with the unknown-option ValueError that carries \<open>oname\<close>.
\<close>

theorem unknown_option_fails:
  assumes "spec_lines str = before @ spec # after"
      and "py_split CHR '':'' spec = outputfile # pre @ option # post"
      and "split_option option = Inr (oname, ovalue)"
      and "oname \<notin> {''function'', ''object'', ''pyfile'', ''module'', ''format'', ''author''}"
      and "oname \<notin> set attrs"
  shows "(\<exists>e. parse_manpages_spec attrs str = Inl e) \<and>
         (\<forall>acc d. parse_specs attrs [] before = Inr acc \<and> parse_options attrs [] pre = Inr d
            \<longrightarrow> parse_manpages_spec attrs str = Inl (UnknownOption oname))"
proof -
  have u: "store_option attrs d oname ovalue = Inl (UnknownOption oname)" for d
    using assms(4,5) by (intro store_option_unknown) auto
  then have "\<exists>e. parse_manpages_spec attrs str = Inl e"
    by (intro parse_fails[OF assms(1-3)]) blast
  moreover have "parse_manpages_spec attrs str = Inl (UnknownOption oname)"
    if "parse_specs attrs [] before = Inr acc" "parse_options attrs [] pre = Inr d" for acc d
    using parse_fails_with[OF assms(1) that(1) parse_spec_fails_with[OF assms(2) that(2) assms(3) u]] .
  ultimately show ?thesis by blast
qed

theorem unknown_option_fails_witness:
  "parse_manpages_spec [''description''] ''a.1:module=x:bogus=1'' = Inl (UnknownOption ''bogus'')"
proof -
  have 1: "spec_lines ''a.1:module=x:bogus=1'' = [] @ ''a.1:module=x:bogus=1'' # []"
    by (simp add: spec_lines_def py_strip_def isspace_def whitespace_def)
  have 2: "py_split CHR '':'' ''a.1:module=x:bogus=1'' = ''a.1'' # [''module=x''] @ ''bogus=1'' # []"
    by simp
  have 3: "split_option ''bogus=1'' = Inr (''bogus'', ''1'')"
    by (simp add: split_option_def)
  have 4: "''bogus'' \<notin> {''function'', ''object'', ''pyfile'', ''module'', ''format'', ''author''}"
    by simp
  have 5: "''bogus'' \<notin> set [''description'']" by simp
  have 6: "parse_specs [''description''] [] [] = Inr []" by simp
  have 7: "parse_options [''description''] [] [''module=x'']
      = Inr [(''import_type'', Str ''module''), (''import_from'', Str ''x'')]"
    by (simp add: split_option_def store_option_def has_key_def)
  from unknown_option_fails[OF 1 2 3 4 5] 6 7 show ?thesis by blast
qed

text \<open>
  Claim C10. The name \<^verbatim>\<open>authors\<close> is never accepted, whatever \<^verbatim>\<open>MANPAGE_DATA_ATTRS\<close>
  holds (the list \<open>attrs\<close> is arbitrary here, so it may contain \<^verbatim>\<open>authors\<close>): a text with
  an option token \<^verbatim>\<open>authors=...\<close> never parses, and when the parser gets to that token it
  fails there with the unknown-option ValueError for \<^verbatim>\<open>authors\<close>. Only the branch for
  \<^verbatim>\<open>author\<close> writes the \<^verbatim>\<open>authors\<close> field.
\<close>

theorem authors_option_rejected:
  assumes "spec_lines str = before @ spec # after"
      and "py_split CHR '':'' spec = outputfile # pre @ option # post"
      and "split_option option = Inr (''authors'', ovalue)"
  shows "(\<exists>e. parse_manpages_spec attrs str = Inl e) \<and>
         (\<forall>acc d. parse_specs attrs [] before = Inr acc \<and> parse_options attrs [] pre = Inr d
            \<longrightarrow> parse_manpages_spec attrs str = Inl (UnknownOption ''authors''))"
proof -
  have u: "store_option attrs d ''authors'' ovalue = Inl (UnknownOption ''authors'')" for d
    by (intro store_option_unknown) auto
  then have "\<exists>e. parse_manpages_spec attrs str = Inl e"
    by (intro parse_fails[OF assms(1-3)]) blast
  moreover have "parse_manpages_spec attrs str = Inl (UnknownOption ''authors'')"
    if "parse_specs attrs [] before = Inr acc" "parse_options attrs [] pre = Inr d" for acc d
    using parse_fails_with[OF assms(1) that(1) parse_spec_fails_with[OF assms(2) that(2) assms(3) u]] .
  ultimately show ?thesis by blast
qed

theorem authors_option_rejected_witness:
  "parse_manpages_spec [''authors'', ''description''] ''a.1:module=x:authors=Me''
     = Inl (UnknownOption ''authors'')"
proof -
  have 1: "spec_lines ''a.1:module=x:authors=Me'' = [] @ ''a.1:module=x:authors=Me'' # []"
    by (simp add: spec_lines_def py_strip_def isspace_def whitespace_def)
  have 2: "py_split CHR '':'' ''a.1:module=x:authors=Me''
      = ''a.1'' # [''module=x''] @ ''authors=Me'' # []"
    by simp
  have 3: "split_option ''authors=Me'' = Inr (''authors'', ''Me'')"
    by (simp add: split_option_def)
  have 6: "parse_specs [''authors'', ''description''] [] [] = Inr []" by simp
  have 7: "parse_options [''authors'', ''description''] [] [''module=x'']
      = Inr [(''import_type'', Str ''module''), (''import_from'', Str ''x'')]"
    by (simp add: split_option_def store_option_def has_key_def)
  from authors_option_rejected[OF 1 2 3] 6 7 show ?thesis by blast
qed

text \<open>
  Claim C7. When the parser gets to an option token of a line and the record \<open>d\<close> built
  from the tokens before it already has \<^verbatim>\<open>objtype\<close> and the token is \<^verbatim>\<open>function=\<close> or
  \<^verbatim>\<open>object=\<close>, or \<open>d\<close> has \<^verbatim>\<open>import_type\<close> and the token is \<^verbatim>\<open>pyfile=\<close> or \<^verbatim>\<open>module=\<close>, or
  \<open>d\<close> has \<^verbatim>\<open>format\<close> and the token is \<^verbatim>\<open>format=\<close>, the whole parse fails with the
  AssertionError of the duplicate check.
\<close>

theorem duplicate_field_fails:
  assumes "spec_lines str = before @ spec # after"
      and "parse_specs attrs [] before = Inr acc"
      and "py_split CHR '':'' spec = outputfile # pre @ option # post"
      and "parse_options attrs [] pre = Inr d"
      and "split_option option = Inr (oname, ovalue)"
      and "(oname = ''function'' \<or> oname = ''object'') \<and> has_key ''objtype'' d
         \<or> (oname = ''pyfile'' \<or> oname = ''module'') \<and> has_key ''import_type'' d
         \<or> oname = ''format'' \<and> has_key ''format'' d"
  shows "parse_manpages_spec attrs str = Inl AssertionError"
proof -
  from assms(6) have "store_option attrs d oname ovalue = Inl AssertionError"
    by (rule store_option_duplicate)
  from parse_fails_with[OF assms(1,2) parse_spec_fails_with[OF assms(3,4,5) this]]
  show ?thesis .
qed

theorem duplicate_field_fails_witness:
  "parse_manpages_spec [] ''a.1:function=f:function=g'' = Inl AssertionError"
proof -
  have 1: "spec_lines ''a.1:function=f:function=g'' = [] @ ''a.1:function=f:function=g'' # []"
    by (simp add: spec_lines_def py_strip_def isspace_def whitespace_def)
  have 2: "parse_specs [] [] [] = Inr []" by simp
  have 3: "py_split CHR '':'' ''a.1:function=f:function=g''
      = ''a.1'' # [''function=f''] @ ''function=g'' # []"
    by simp
  have 4: "parse_options [] [] [''function=f'']
      = Inr [(''objtype'', Str ''function''), (''objname'', Str ''f'')]"
    by (simp add: split_option_def store_option_def has_key_def)
  have 5: "split_option ''function=g'' = Inr (''function'', ''g'')"
    by (simp add: split_option_def)
  have 6: "(''function'' = ''function'' \<or> ''function'' = ''object'') \<and>
             has_key ''objtype'' [(''objtype'', Str ''function''), (''objname'', Str ''f'')]
         \<or> (''function'' = ''pyfile'' \<or> ''function'' = ''module'') \<and>
             has_key ''import_type'' [(''objtype'', Str ''function''), (''objname'', Str ''f'')]
         \<or> ''function'' = ''format'' \<and>
             has_key ''format'' [(''objtype'', Str ''function''), (''objname'', Str ''f'')]"
    by (simp add: has_key_def)
  from duplicate_field_fails[OF 1 2 3 4 5 6] show ?thesis .
qed

section \<open>The keys of the parsed mapping\<close>

lemma parse_specs_distinct:
  "parse_specs attrs acc specs = Inr m \<Longrightarrow> distinct (map fst acc) \<Longrightarrow> distinct (map fst m)"
  by (induction specs arbitrary: acc) (auto split: sum.splits simp: AList.distinct_update)

lemma parse_specs_keys:
  "parse_specs attrs acc specs = Inr m \<Longrightarrow>
     fst ` set m = fst ` set acc \<union> {f. \<exists>spec \<in> set specs. \<exists>d. parse_spec attrs spec = Inr (f, d)}"
proof (induction specs arbitrary: acc)
  case Nil
  then show ?case by simp
next
  case (Cons spec specs)
  from Cons.prems obtain f d where p: "parse_spec attrs spec = Inr (f, d)"
    and r: "parse_specs attrs (AList.update f d acc) specs = Inr m"
    by (auto split: sum.splits)
  from Cons.IH[OF r] have "fst ` set m = insert f (fst ` set acc) \<union>
      {f. \<exists>spec \<in> set specs. \<exists>d. parse_spec attrs spec = Inr (f, d)}"
    by (simp add: AList.dom_update)
  with p show ?case by auto
qed

text \<open>Lines that declare other files leave the record of \<open>f\<close> as it is.\<close>

lemma parse_specs_untouched:
  "parse_specs attrs acc specs = Inr m \<Longrightarrow>
   \<forall>spec \<in> set specs. \<forall>d. parse_spec attrs spec \<noteq> Inr (f, d) \<Longrightarrow>
   map_of m f = map_of acc f"
proof (induction specs arbitrary: acc)
  case Nil
  then show ?case by simp
next
  case (Cons spec specs)
  from Cons.prems(1) obtain g d where p: "parse_spec attrs spec = Inr (g, d)"
    and r: "parse_specs attrs (AList.update g d acc) specs = Inr m"
    by (auto split: sum.splits)
  from Cons.prems(2) p have "g \<noteq> f" by auto
  moreover from Cons.prems(2) have "\<forall>spec \<in> set specs. \<forall>d. parse_spec attrs spec \<noteq> Inr (f, d)"
    by simp
  from Cons.IH[OF r this] have "map_of m f = map_of (AList.update g d acc) f" .
  ultimately show ?case by (simp add: AList.update_conv')
qed

lemma parse_specs_last:
  assumes "parse_specs attrs acc (before @ spec # after) = Inr m"
      and "parse_spec attrs spec = Inr (f, d)"
      and "\<forall>spec' \<in> set after. \<forall>d'. parse_spec attrs spec' \<noteq> Inr (f, d')"
  shows "map_of m f = Some d"
proof -
  from assms(1) obtain acc' where "parse_specs attrs acc before = Inr acc'"
    and "parse_specs attrs acc' (spec # after) = Inr m"
    by (auto simp: parse_specs_append split: sum.splits)
  with assms(2) have "parse_specs attrs (AList.update f d acc') after = Inr m" by simp
  from parse_specs_untouched[OF this assms(3)] show ?thesis by (simp add: AList.update_conv')
qed

text \<open>
  Claim C8. Let the text be valid, that is, let its parse return a mapping \<open>m\<close>. Then no
  key occurs twice in \<open>m\<close>; the keys of \<open>m\<close> are exactly the output file names that the
  lines of the text declare; and for the last line that declares a file name \<open>f\<close> (no
  line after it declares \<open>f\<close>), \<open>m\<close> holds under \<open>f\<close> exactly the record \<open>d\<close> parsed from
  that line alone, with nothing kept from earlier lines for \<open>f\<close>.
\<close>

theorem parsed_mapping_keys:
  assumes "parse_manpages_spec attrs str = Inr m"
  shows "distinct (map fst m) \<and>
         fst ` set m = {f. \<exists>spec \<in> set (spec_lines str). \<exists>d. parse_spec attrs spec = Inr (f, d)} \<and>
         (\<forall>before spec after f d.
            spec_lines str = before @ spec # after \<and> parse_spec attrs spec = Inr (f, d) \<and>
            (\<forall>spec' \<in> set after. \<forall>d'. parse_spec attrs spec' \<noteq> Inr (f, d'))
            \<longrightarrow> map_of m f = Some d)"
proof -
  from assms have p: "parse_specs attrs [] (spec_lines str) = Inr m"
    by (simp add: parse_manpages_spec_def)
  from parse_specs_distinct[OF p] have "distinct (map fst m)" by simp
  moreover from parse_specs_keys[OF p]
  have "fst ` set m = {f. \<exists>spec \<in> set (spec_lines str). \<exists>d. parse_spec attrs spec = Inr (f, d)}"
    by simp
  moreover have "map_of m f = Some d"
    if "spec_lines str = before @ spec # after" "parse_spec attrs spec = Inr (f, d)"
       "\<forall>spec' \<in> set after. \<forall>d'. parse_spec attrs spec' \<noteq> Inr (f, d')"
    for before spec after f d
    using parse_specs_last[of attrs "[]" before spec after m f d] p that by simp
  ultimately show ?thesis by blast
qed

theorem parsed_mapping_keys_witness:
  "parse_manpages_spec [] ''a.1:module=x\<newline>b.1:module=z\<newline>a.1:module=y''
     = Inr [(''a.1'', [(''import_type'', Str ''module''), (''import_from'', Str ''y'')]),
            (''b.1'', [(''import_type'', Str ''module''), (''import_from'', Str ''z'')])] \<and>
   distinct (map fst [(''a.1'', [(''import_type'', Str ''module''), (''import_from'', Str ''y'')]),
            (''b.1'', [(''import_type'', Str ''module''), (''import_from'', Str ''z'')])]) \<and>
   map_of [(''a.1'', [(''import_type'', Str ''module''), (''import_from'', Str ''y'')]),
            (''b.1'', [(''import_type'', Str ''module''), (''import_from'', Str ''z'')])] ''a.1''
     = Some [(''import_type'', Str ''module''), (''import_from'', Str ''y'')]"
proof -
  have p: "parse_manpages_spec [] ''a.1:module=x\<newline>b.1:module=z\<newline>a.1:module=y''
     = Inr [(''a.1'', [(''import_type'', Str ''module''), (''import_from'', Str ''y'')]),
            (''b.1'', [(''import_type'', Str ''module''), (''import_from'', Str ''z'')])]"
    by (simp add: eval_defs)
  have l: "spec_lines ''a.1:module=x\<newline>b.1:module=z\<newline>a.1:module=y''
     = [''a.1:module=x'', ''b.1:module=z''] @ ''a.1:module=y'' # []"
    by (simp add: spec_lines_def py_strip_def isspace_def whitespace_def)
  have s: "parse_spec [] ''a.1:module=y''
     = Inr (''a.1'', [(''import_type'', Str ''module''), (''import_from'', Str ''y'')])"
    by (simp add: eval_defs)
  have n: "\<forall>spec' \<in> set []. \<forall>d'. parse_spec [] spec' \<noteq> Inr (''a.1'', d')" by simp
  from parsed_mapping_keys[OF p] l s n p show ?thesis by blast
qed

section \<open>What one option does to the record\<close>

text \<open>The branches of the \<^verbatim>\<open>if\<close>/\<^verbatim>\<open>elif\<close> chain that return, each with its guard and with
  the record it leaves, read as a map.\<close>

lemma store_option_cases:
  assumes "store_option attrs d oname ovalue = Inr d'"
  obtains
    (obj) "oname = ''function'' \<or> oname = ''object''" "map_of d ''objtype'' = None"
      "map_of d' = (map_of d)(''objtype'' \<mapsto> Str oname, ''objname'' \<mapsto> Str ovalue)"
  | (pyfile) "oname = ''pyfile''" "map_of d ''import_type'' = None"
      "map_of d' = (map_of d)(''import_type'' \<mapsto> Str oname, ''import_from'' \<mapsto> Str ovalue,
                              ''prog'' \<mapsto> Str (basename ovalue))"
  | (module) "oname = ''module''" "map_of d ''import_type'' = None"
      "map_of d' = (map_of d)(''import_type'' \<mapsto> Str oname, ''import_from'' \<mapsto> Str ovalue)"
  | (format) "oname = ''format''" "map_of d ''format'' = None"
      "map_of d' = (map_of d)(''format'' \<mapsto> Str ovalue)"
  | (first_author) "oname = ''author''" "map_of d ''authors'' = None"
      "map_of d' = (map_of d)(''authors'' \<mapsto> StrList [ovalue])"
  | (next_author) l where "oname = ''author''" "map_of d ''authors'' = Some (StrList l)"
      "map_of d' = (map_of d)(''authors'' \<mapsto> StrList (l @ [ovalue]))"
  | (attr) "oname \<in> set attrs"
      "oname \<notin> {''function'', ''object'', ''pyfile'', ''module'', ''format'', ''author'', ''authors''}"
      "map_of d oname = None" "map_of d' = (map_of d)(oname \<mapsto> Str ovalue)"
proof -
  consider "oname = ''function'' \<or> oname = ''object''" | "oname = ''pyfile''" | "oname = ''module''"
    | "oname = ''format''" | "oname = ''author''"
    | "oname \<noteq> ''function''" "oname \<noteq> ''object''" "oname \<noteq> ''pyfile''" "oname \<noteq> ''module''"
      "oname \<noteq> ''format''" "oname \<noteq> ''author''"
    by argo
  then show thesis
  proof cases
    case 1
    with assms have "map_of d ''objtype'' = None"
      and "d' = AList.update ''objname'' (Str ovalue) (AList.update ''objtype'' (Str oname) d)"
      by (auto simp: store_option_def has_key_def split: if_splits)
    with 1 show thesis by (intro obj) (simp_all add: AList.update_conv')
  next
    case 2
    with assms have "map_of d ''import_type'' = None"
      and "d' = AList.update ''prog'' (Str (basename ovalue)) (AList.update ''import_from'' (Str ovalue)
                 (AList.update ''import_type'' (Str oname) d))"
      by (auto simp: store_option_def has_key_def split: if_splits)
    with 2 show thesis by (intro pyfile) (simp_all add: AList.update_conv')
  next
    case 3
    with assms have "map_of d ''import_type'' = None"
      and "d' = AList.update ''import_from'' (Str ovalue) (AList.update ''import_type'' (Str oname) d)"
      by (auto simp: store_option_def has_key_def split: if_splits)
    with 3 show thesis by (intro module) (simp_all add: AList.update_conv')
  next
    case 4
    with assms have "map_of d ''format'' = None"
      and "d' = AList.update ''format'' (Str ovalue) d"
      by (auto simp: store_option_def has_key_def split: if_splits)
    with 4 show thesis by (intro format) (simp_all add: AList.update_conv')
  next
    case 5
    with assms have c: "(case map_of d ''authors'' of
           None \<Rightarrow> Inr (AList.update ''authors'' (StrList [ovalue]) d)
         | Some (StrList l) \<Rightarrow> Inr (AList.update ''authors'' (StrList (l @ [ovalue])) d)
         | Some (Str s) \<Rightarrow> Inl AttributeError) = Inr d'"
      by (simp add: store_option_def)
    show thesis
    proof (cases "map_of d ''authors''")
      case None
      with c 5 show thesis by (intro first_author) (auto simp: AList.update_conv')
    next
      case (Some v)
      with c obtain l where "v = StrList l" by (cases v) auto
      with c 5 Some show thesis by (intro next_author[of l]) (auto simp: AList.update_conv')
    qed
  next
    case 6
    with assms have "oname \<in> set attrs" "oname \<noteq> ''authors''" "map_of d oname = None"
      and "d' = AList.update oname (Str ovalue) d"
      by (auto simp: store_option_def has_key_def split: if_splits)
    with 6 show thesis by (intro attr) (simp_all add: AList.update_conv')
  qed
qed

section \<open>Fields that are set stay set\<close>

lemma store_option_keeps_keys:
  assumes "store_option attrs d oname ovalue = Inr d'" and "has_key k d"
  shows "has_key k d'"
proof -
  from assms(2) obtain v where v: "map_of d k = Some v" by (auto simp: has_key_def)
  from assms(1) have "\<exists>w. map_of d' k = Some w"
  proof (cases rule: store_option_cases)
    case obj
    from obj(3) v show ?thesis by simp
  next
    case pyfile
    from pyfile(3) v show ?thesis by simp
  next
    case module
    from module(3) v show ?thesis by simp
  next
    case format
    from format(3) v show ?thesis by simp
  next
    case first_author
    from first_author(3) v show ?thesis by simp
  next
    case (next_author l)
    from next_author(3) v show ?thesis by simp
  next
    case attr
    from attr(4) v show ?thesis by simp
  qed
  then show ?thesis by (simp add: has_key_def)
qed

lemma parse_options_keeps_keys:
  "parse_options attrs d options = Inr d' \<Longrightarrow> has_key k d \<Longrightarrow> has_key k d'"
proof (induction options arbitrary: d)
  case Nil
  then show ?case by simp
next
  case (Cons option options)
  from Cons.prems(1) obtain oname x d1 where "store_option attrs d oname x = Inr d1"
    and r: "parse_options attrs d1 options = Inr d'"
    by (auto split: sum.splits)
  from Cons.IH[OF r store_option_keeps_keys[OF this(1) Cons.prems(2)]] show ?case .
qed

lemma store_option_sets_key:
  assumes "store_option attrs d oname ovalue = Inr d'"
  shows "(oname = ''function'' \<or> oname = ''object'' \<longrightarrow> has_key ''objtype'' d') \<and>
         (oname = ''pyfile'' \<or> oname = ''module'' \<longrightarrow> has_key ''import_type'' d') \<and>
         (oname = ''format'' \<longrightarrow> has_key ''format'' d')"
  using assms
proof (cases rule: store_option_cases)
  case obj
  from obj(3) have "has_key ''objtype'' d'" by (simp add: has_key_def)
  moreover from obj(1) have "oname \<noteq> ''pyfile''" "oname \<noteq> ''module''" "oname \<noteq> ''format''" by auto
  ultimately show ?thesis by simp
next
  case pyfile
  from pyfile(3) have "has_key ''import_type'' d'" by (simp add: has_key_def)
  with pyfile(1) show ?thesis by simp
next
  case module
  from module(3) have "has_key ''import_type'' d'" by (simp add: has_key_def)
  with module(1) show ?thesis by simp
next
  case format
  from format(3) have "has_key ''format'' d'" by (simp add: has_key_def)
  with format(1) show ?thesis by simp
next
  case first_author
  from first_author(1) show ?thesis by simp
next
  case (next_author l)
  from next_author(1) show ?thesis by simp
next
  case attr
  from attr(2) show ?thesis by simp
qed

lemma parse_options_sets_key:
  assumes "parse_options attrs d0 options = Inr d"
      and "option \<in> set options"
      and "split_option option = Inr (oname, ovalue)"
  shows "(oname = ''function'' \<or> oname = ''object'' \<longrightarrow> has_key ''objtype'' d) \<and>
         (oname = ''pyfile'' \<or> oname = ''module'' \<longrightarrow> has_key ''import_type'' d) \<and>
         (oname = ''format'' \<longrightarrow> has_key ''format'' d)"
proof -
  from assms(2) obtain pre post where o: "options = pre @ option # post"
    by (auto dest: split_list)
  with assms(1,3) obtain d1 d2 where "store_option attrs d1 oname ovalue = Inr d2"
    and r: "parse_options attrs d2 post = Inr d"
    by (auto simp: parse_options_append split: sum.splits)
  note s = store_option_sets_key[OF this(1)] and k = parse_options_keeps_keys[OF r]
  show ?thesis
  proof (intro conjI impI)
    assume "oname = ''function'' \<or> oname = ''object''"
    with s have "has_key ''objtype'' d2" by (elim conjE) (rule mp)
    then show "has_key ''objtype'' d" by (rule k)
  next
    assume "oname = ''pyfile'' \<or> oname = ''module''"
    with s have "has_key ''import_type'' d2" by (elim conjE) (rule mp)
    then show "has_key ''import_type'' d" by (rule k)
  next
    assume "oname = ''format''"
    with s have "has_key ''format'' d2" by (elim conjE) (rule mp)
    then show "has_key ''format'' d" by (rule k)
  qed
qed

text \<open>So a line with two options of one exclusive group fails at the second, when the
  parser gets there.\<close>

lemma second_of_group_fails:
  assumes "spec_lines str = before @ spec # after"
      and "parse_specs attrs [] before = Inr acc"
      and "py_split CHR '':'' spec = outputfile # pre @ option # post"
      and "parse_options attrs [] pre = Inr d"
      and "earlier \<in> set pre"
      and "split_option earlier = Inr (oname', ovalue')"
      and "split_option option = Inr (oname, ovalue)"
      and "(oname' = ''function'' \<or> oname' = ''object'') \<and> (oname = ''function'' \<or> oname = ''object'')
         \<or> (oname' = ''pyfile'' \<or> oname' = ''module'') \<and> (oname = ''pyfile'' \<or> oname = ''module'')
         \<or> oname' = ''format'' \<and> oname = ''format''"
  shows "parse_manpages_spec attrs str = Inl AssertionError"
proof -
  note k = parse_options_sets_key[OF assms(4,5,6)]
  from assms(8) k
  have "(oname = ''function'' \<or> oname = ''object'') \<and> has_key ''objtype'' d
      \<or> (oname = ''pyfile'' \<or> oname = ''module'') \<and> has_key ''import_type'' d
      \<or> oname = ''format'' \<and> has_key ''format'' d"
    by argo
  then have "store_option attrs d oname ovalue = Inl AssertionError"
    by (rule store_option_duplicate)
  from parse_fails_with[OF assms(1,2) parse_spec_fails_with[OF assms(3,4,7) this]]
  show ?thesis .
qed

section \<open>pyfile and prog\<close>

lemma store_option_pyfile:
  assumes "store_option attrs d ''pyfile'' ovalue = Inr d'"
  shows "from_pyfile ovalue d'"
  using assms by (cases rule: store_option_cases) (simp_all add: from_pyfile_def)

lemma store_option_keeps_pyfile:
  assumes "store_option attrs d oname x = Inr d'" and "from_pyfile ovalue d"
  shows "from_pyfile ovalue d'"
proof -
  from assms(2) have t: "map_of d ''import_type'' = Some (Str ''pyfile'')"
    and f: "map_of d ''import_from'' = Some (Str ovalue)"
    and p: "map_of d ''prog'' = Some (Str (basename ovalue))"
    by (simp_all add: from_pyfile_def)
  from assms(1) have "map_of d' ''import_type'' = map_of d ''import_type'' \<and>
     map_of d' ''import_from'' = map_of d ''import_from'' \<and>
     map_of d' ''prog'' = map_of d ''prog''"
  proof (cases rule: store_option_cases)
    case obj
    then show ?thesis by simp
  next
    case pyfile
    with t show ?thesis by simp
  next
    case module
    with t show ?thesis by simp
  next
    case format
    then show ?thesis by simp
  next
    case first_author
    then show ?thesis by simp
  next
    case (next_author l)
    then show ?thesis by simp
  next
    case attr
    from attr(3) t f p have "oname \<noteq> ''import_type''" "oname \<noteq> ''import_from''" "oname \<noteq> ''prog''"
      by auto
    with attr(4) show ?thesis by simp
  qed
  with t f p show ?thesis by (simp add: from_pyfile_def)
qed

lemma parse_spec_Inr:
  assumes "parse_spec attrs spec = Inr (outputfile, d)"
  obtains options where "py_split CHR '':'' spec = outputfile # options"
    and "parse_options attrs [] options = Inr d"
  using assms by (auto simp: parse_spec_def split: list.splits sum.splits)

lemma parse_options_keeps_pyfile:
  "parse_options attrs d options = Inr d' \<Longrightarrow> from_pyfile ovalue d \<Longrightarrow> from_pyfile ovalue d'"
proof (induction options arbitrary: d)
  case Nil
  then show ?case by simp
next
  case (Cons option options)
  from Cons.prems(1) obtain oname x d1 where "store_option attrs d oname x = Inr d1"
    and r: "parse_options attrs d1 options = Inr d'"
    by (auto split: sum.splits)
  from Cons.IH[OF r store_option_keeps_pyfile[OF this(1) Cons.prems(2)]] show ?case .
qed

lemma parse_options_pyfile:
  assumes "parse_options attrs d0 options = Inr d"
      and "option \<in> set options"
      and "split_option option = Inr (''pyfile'', ovalue)"
  shows "from_pyfile ovalue d"
proof -
  from assms(2) obtain pre post where o: "options = pre @ option # post"
    by (auto dest: split_list)
  with assms(1,3) obtain d1 d2 where "store_option attrs d1 ''pyfile'' ovalue = Inr d2"
    and r: "parse_options attrs d2 post = Inr d"
    by (auto simp: parse_options_append split: sum.splits)
  from parse_options_keeps_pyfile[OF r store_option_pyfile[OF this(1)]] show ?thesis .
qed

text \<open>
  Claim C5, as amended. A line \<^verbatim>\<open>tool.1:function=main:pyfile=/path/to/tool.py\<close>, which has
  no \<^verbatim>\<open>prog\<close> option, parses to a record with \<^verbatim>\<open>prog\<close> = \<^verbatim>\<open>tool.py\<close>. In general, every
  record parsed from a line that has an option \<^verbatim>\<open>pyfile=V\<close> has \<^verbatim>\<open>import_from\<close> = \<open>V\<close> and
  \<^verbatim>\<open>prog\<close> = the base name of \<open>V\<close>, whatever else the line holds: the derivation is not
  conditional on \<^verbatim>\<open>prog\<close> being absent, so a \<^verbatim>\<open>prog\<close> written by an earlier option of the
  line does not survive it.
\<close>

theorem pyfile_sets_prog:
  "parse_manpages_spec attrs ''tool.1:function=main:pyfile=/path/to/tool.py'' =
     Inr [(''tool.1'', [(''objtype'', Str ''function''), (''objname'', Str ''main''),
                        (''import_type'', Str ''pyfile''),
                        (''import_from'', Str ''/path/to/tool.py''),
                        (''prog'', Str ''tool.py'')])] \<and>
   (\<forall>spec outputfile d option ovalue.
      parse_spec attrs spec = Inr (outputfile, d) \<and>
      option \<in> set (tl (py_split CHR '':'' spec)) \<and>
      split_option option = Inr (''pyfile'', ovalue)
      \<longrightarrow> map_of d ''import_from'' = Some (Str ovalue) \<and>
          map_of d ''prog'' = Some (Str (basename ovalue)))"
proof -
  have "parse_manpages_spec attrs ''tool.1:function=main:pyfile=/path/to/tool.py'' =
     Inr [(''tool.1'', [(''objtype'', Str ''function''), (''objname'', Str ''main''),
                        (''import_type'', Str ''pyfile''),
                        (''import_from'', Str ''/path/to/tool.py''),
                        (''prog'', Str ''tool.py'')])]"
    by (simp add: eval_defs)
  moreover have "map_of d ''import_from'' = Some (Str ovalue) \<and>
          map_of d ''prog'' = Some (Str (basename ovalue))"
    if "parse_spec attrs spec = Inr (outputfile, d)"
       "option \<in> set (tl (py_split CHR '':'' spec))"
       "split_option option = Inr (''pyfile'', ovalue)"
    for spec outputfile d option ovalue
  proof -
    from that(1) obtain options where "py_split CHR '':'' spec = outputfile # options"
      and p: "parse_options attrs [] options = Inr d"
      by (rule parse_spec_Inr)
    with that(2) have "option \<in> set options" by simp
    from parse_options_pyfile[OF p this that(3)] show ?thesis
      by (simp add: from_pyfile_def)
  qed
  ultimately show ?thesis by blast
qed

theorem pyfile_sets_prog_witness:
  "map_of [(''prog'', Str ''tool.py''), (''import_type'', Str ''pyfile''),
           (''import_from'', Str ''/path/to/tool.py'')] ''prog''
     = Some (Str (basename ''/path/to/tool.py''))"
proof -
  have "parse_spec [''prog''] ''tool.1:prog=mytool:pyfile=/path/to/tool.py'' =
      Inr (''tool.1'', [(''prog'', Str ''tool.py''), (''import_type'', Str ''pyfile''),
           (''import_from'', Str ''/path/to/tool.py'')])"
    by (simp add: eval_defs)
  moreover have "''pyfile=/path/to/tool.py'' \<in> set (tl (py_split CHR '':'' ''tool.1:prog=mytool:pyfile=/path/to/tool.py''))"
    by simp
  moreover have "split_option ''pyfile=/path/to/tool.py'' = Inr (''pyfile'', ''/path/to/tool.py'')"
    by (simp add: split_option_def)
  ultimately show ?thesis
    using pyfile_sets_prog[of "[''prog'']"] by blast
qed

text \<open>
  Against claim C5 as stated (an explicit \<^verbatim>\<open>prog\<close> is not replaced): with \<^verbatim>\<open>prog\<close> in the
  allow-list, \<^verbatim>\<open>prog=mytool\<close> before \<^verbatim>\<open>pyfile=/path/to/tool.py\<close> is replaced by \<^verbatim>\<open>tool.py\<close>,
  and after it the parse fails on the duplicate assertion.
\<close>

theorem explicit_prog_counterexample:
  "parse_manpages_spec [''prog''] ''tool.1:prog=mytool:pyfile=/path/to/tool.py'' =
     Inr [(''tool.1'', [(''prog'', Str ''tool.py''), (''import_type'', Str ''pyfile''),
                        (''import_from'', Str ''/path/to/tool.py'')])] \<and>
   parse_manpages_spec [''prog''] ''tool.1:pyfile=/path/to/tool.py:prog=mytool'' = Inl AssertionError"
  by (simp add: eval_defs)

section \<open>author and authors\<close>

lemma store_option_authors:
  assumes "store_option attrs d oname ovalue = Inr d'" and "authors_are d l"
  shows "authors_are d' (l @ (if oname = ''author'' then [ovalue] else []))"
  using assms(1)
proof (cases rule: store_option_cases)
  case obj
  then have "oname \<noteq> ''author''" "map_of d' ''authors'' = map_of d ''authors''" by auto
  with assms(2) show ?thesis by (simp add: authors_are_def)
next
  case pyfile
  then have "oname \<noteq> ''author''" "map_of d' ''authors'' = map_of d ''authors''" by auto
  with assms(2) show ?thesis by (simp add: authors_are_def)
next
  case module
  then have "oname \<noteq> ''author''" "map_of d' ''authors'' = map_of d ''authors''" by auto
  with assms(2) show ?thesis by (simp add: authors_are_def)
next
  case format
  then have "oname \<noteq> ''author''" "map_of d' ''authors'' = map_of d ''authors''" by auto
  with assms(2) show ?thesis by (simp add: authors_are_def)
next
  case first_author
  with assms(2) have "l = []" by (auto simp: authors_are_def split: if_splits)
  with first_author show ?thesis by (simp add: authors_are_def)
next
  case (next_author l')
  with assms(2) have "l = l'" by (auto simp: authors_are_def split: if_splits)
  with next_author show ?thesis by (simp add: authors_are_def)
next
  case attr
  then have "oname \<noteq> ''author''" "map_of d' ''authors'' = map_of d ''authors''" by auto
  with assms(2) show ?thesis by (simp add: authors_are_def)
qed

lemma parse_options_authors:
  "parse_options attrs d options = Inr d' \<Longrightarrow> authors_are d l \<Longrightarrow>
   authors_are d' (l @ author_values options)"
proof (induction options arbitrary: d l)
  case Nil
  then show ?case by (simp add: author_values_def)
next
  case (Cons option options)
  from Cons.prems(1) obtain oname ovalue d1 where s: "split_option option = Inr (oname, ovalue)"
    and "store_option attrs d oname ovalue = Inr d1"
    and r: "parse_options attrs d1 options = Inr d'"
    by (auto split: sum.splits)
  from Cons.IH[OF r store_option_authors[OF this(2) Cons.prems(2)]] s
  show ?case by (simp add: author_values_def)
qed

text \<open>
  Claim C9. The line \<^verbatim>\<open>a.1:function=main:module=foo:author=X:author=Y\<close> parses, for every
  allow-list, to the one record with \<^verbatim>\<open>objtype\<close> = \<^verbatim>\<open>function\<close>, \<^verbatim>\<open>objname\<close> = \<^verbatim>\<open>main\<close>,
  \<^verbatim>\<open>import_type\<close> = \<^verbatim>\<open>module\<close>, \<^verbatim>\<open>import_from\<close> = \<^verbatim>\<open>foo\<close> and \<^verbatim>\<open>authors\<close> = \<^verbatim>\<open>[X, Y]\<close>.
  In general the \<^verbatim>\<open>authors\<close> field of a record parsed from a line is the list of the
  values of all \<^verbatim>\<open>author=\<close> options of that line, in their order: each occurrence is
  appended, none overwrites.
\<close>

theorem author_option_accumulates:
  "parse_manpages_spec attrs ''a.1:function=main:module=foo:author=X:author=Y'' =
     Inr [(''a.1'', [(''objtype'', Str ''function''), (''objname'', Str ''main''),
                     (''import_type'', Str ''module''), (''import_from'', Str ''foo''),
                     (''authors'', StrList [''X'', ''Y''])])] \<and>
   (\<forall>spec outputfile d.
      parse_spec attrs spec = Inr (outputfile, d) \<and> author_values (tl (py_split CHR '':'' spec)) \<noteq> []
      \<longrightarrow> map_of d ''authors'' = Some (StrList (author_values (tl (py_split CHR '':'' spec)))))"
proof -
  have "parse_manpages_spec attrs ''a.1:function=main:module=foo:author=X:author=Y'' =
     Inr [(''a.1'', [(''objtype'', Str ''function''), (''objname'', Str ''main''),
                     (''import_type'', Str ''module''), (''import_from'', Str ''foo''),
                     (''authors'', StrList [''X'', ''Y''])])]"
    by (simp add: eval_defs)
  moreover have "map_of d ''authors'' = Some (StrList (author_values (tl (py_split CHR '':'' spec))))"
    if "parse_spec attrs spec = Inr (outputfile, d)"
       "author_values (tl (py_split CHR '':'' spec)) \<noteq> []"
    for spec outputfile d
  proof -
    from that(1) obtain options where o: "py_split CHR '':'' spec = outputfile # options"
      and p: "parse_options attrs [] options = Inr d"
      by (rule parse_spec_Inr)
    have "authors_are [] []" by (simp add: authors_are_def)
    from parse_options_authors[OF p this] that(2) o show ?thesis
      by (simp add: authors_are_def)
  qed
  ultimately show ?thesis by blast
qed

theorem author_option_accumulates_witness:
  "map_of [(''authors'', StrList [''X'', ''Y'']), (''import_type'', Str ''module''),
           (''import_from'', Str ''foo'')] ''authors''
     = Some (StrList (author_values (tl (py_split CHR '':'' ''a.1:author=X:module=foo:author=Y'')))) \<and>
   author_values (tl (py_split CHR '':'' ''a.1:author=X:module=foo:author=Y'')) = [''X'', ''Y'']"
proof -
  have "parse_spec [] ''a.1:author=X:module=foo:author=Y'' =
      Inr (''a.1'', [(''authors'', StrList [''X'', ''Y'']), (''import_type'', Str ''module''),
           (''import_from'', Str ''foo'')])"
    by (simp add: eval_defs)
  moreover have a: "author_values (tl (py_split CHR '':'' ''a.1:author=X:module=foo:author=Y'')) = [''X'', ''Y'']"
    by (simp add: author_values_def split_option_def)
  then have "author_values (tl (py_split CHR '':'' ''a.1:author=X:module=foo:author=Y'')) \<noteq> []"
    by simp
  ultimately have "map_of [(''authors'', StrList [''X'', ''Y'']), (''import_type'', Str ''module''),
           (''import_from'', Str ''foo'')] ''authors''
     = Some (StrList (author_values (tl (py_split CHR '':'' ''a.1:author=X:module=foo:author=Y''))))"
    using author_option_accumulates[of "[]"] by blast
  with a show ?thesis by blast
qed

section \<open>Empty lines\<close>

lemma py_strip_outer:
  assumes "\<forall>c \<in> set a. isspace c" and "\<forall>c \<in> set b. isspace c"
  shows "py_strip (a @ s @ b) = py_strip s"
proof -
  from assms(1) have l: "dropWhile isspace (a @ s @ b) = dropWhile isspace (s @ b)" by simp
  show ?thesis
  proof (cases "\<forall>c \<in> set s. isspace c")
    case True
    with assms(2) have "\<forall>c \<in> set (s @ b). isspace c" by auto
    then have e: "dropWhile isspace (s @ b) = []" by (simp only: dropWhile_eq_Nil_conv)
    from True have e': "dropWhile isspace s = []" by (simp only: dropWhile_eq_Nil_conv)
    show ?thesis unfolding py_strip_def l e e' ..
  next
    case False
    then have m: "dropWhile isspace (s @ b) = dropWhile isspace s @ b"
      by (auto simp: dropWhile_append)
    from assms(2) have "\<And>c. c \<in> set (rev b) \<Longrightarrow> isspace c" by simp
    then have r: "dropWhile isspace (rev b @ rev (dropWhile isspace s))
        = dropWhile isspace (rev (dropWhile isspace s))" by (rule dropWhile_append2)
    show ?thesis unfolding py_strip_def l m rev_append r ..
  qed
qed

lemma parse_spec_empty: "parse_spec attrs [] = Inr ([], [])"
  by (simp add: parse_spec_def)

text \<open>
  Claim C3, as amended. Only \<^verbatim>\<open>strip()\<close> removes lines: white space, and so empty lines,
  at the two ends of the text does not change the result. A line that is still empty
  after that, between two other lines, is parsed like every line: it declares the empty
  output file name with no option, so a mapping returned for such a text has the key
  \<^verbatim>\<open>''\<close>.
\<close>

theorem only_outer_whitespace_stripped:
  assumes "\<forall>c \<in> set a. isspace c" and "\<forall>c \<in> set b. isspace c"
  shows "parse_manpages_spec attrs (a @ str @ b) = parse_manpages_spec attrs str \<and>
         (\<forall>m. parse_manpages_spec attrs str = Inr m \<and> [] \<in> set (spec_lines str)
            \<longrightarrow> [] \<in> fst ` set m)"
proof -
  from py_strip_outer[OF assms] have "parse_manpages_spec attrs (a @ str @ b) = parse_manpages_spec attrs str"
    by (simp add: parse_manpages_spec_def spec_lines_def)
  moreover have "[] \<in> fst ` set m"
    if "parse_manpages_spec attrs str = Inr m" "[] \<in> set (spec_lines str)" for m
  proof -
    from that(1) have "parse_specs attrs [] (spec_lines str) = Inr m"
      by (simp add: parse_manpages_spec_def)
    from parse_specs_keys[OF this] that(2) parse_spec_empty[of attrs] show ?thesis by auto
  qed
  ultimately show ?thesis by blast
qed

theorem only_outer_whitespace_stripped_witness:
  "parse_manpages_spec [] (''\<newline> \<newline>'' @ ''a.1:module=x\<newline>\<newline>b.1:module=y'' @ ''\<newline>'')
     = Inr [(''a.1'', [(''import_type'', Str ''module''), (''import_from'', Str ''x'')]),
            ([], []),
            (''b.1'', [(''import_type'', Str ''module''), (''import_from'', Str ''y'')])] \<and>
   [] \<in> fst ` set [(''a.1'', [(''import_type'', Str ''module''), (''import_from'', Str ''x'')]),
            ([], []),
            (''b.1'', [(''import_type'', Str ''module''), (''import_from'', Str ''y'')])]"
proof -
  have a: "\<forall>c \<in> set ''\<newline> \<newline>''. isspace c" by (simp add: isspace_def whitespace_def)
  have b: "\<forall>c \<in> set ''\<newline>''. isspace c" by (simp add: isspace_def whitespace_def)
  have p: "parse_manpages_spec [] ''a.1:module=x\<newline>\<newline>b.1:module=y''
     = Inr [(''a.1'', [(''import_type'', Str ''module''), (''import_from'', Str ''x'')]),
            ([], []),
            (''b.1'', [(''import_type'', Str ''module''), (''import_from'', Str ''y'')])]"
    by (simp add: eval_defs)
  have l: "[] \<in> set (spec_lines ''a.1:module=x\<newline>\<newline>b.1:module=y'')"
    by (simp add: eval_defs)
  from only_outer_whitespace_stripped[OF a b, of "[]" "''a.1:module=x\<newline>\<newline>b.1:module=y''"] p l
  show ?thesis by (metis (no_types, lifting))
qed

text \<open>
  Against claim C3 as stated: the text with an empty line between its two declarations
  parses to three records, the same text without that line to two.
\<close>

theorem empty_line_counterexample:
  "parse_manpages_spec [] ''a.1:module=x\<newline>\<newline>b.1:module=y''
     = Inr [(''a.1'', [(''import_type'', Str ''module''), (''import_from'', Str ''x'')]),
            ([], []),
            (''b.1'', [(''import_type'', Str ''module''), (''import_from'', Str ''y'')])] \<and>
   parse_manpages_spec [] ''a.1:module=x\<newline>b.1:module=y''
     = Inr [(''a.1'', [(''import_type'', Str ''module''), (''import_from'', Str ''x'')]),
            (''b.1'', [(''import_type'', Str ''module''), (''import_from'', Str ''y'')])] \<and>
   parse_manpages_spec [] ''a.1:module=x\<newline>\<newline>b.1:module=y''
     \<noteq> parse_manpages_spec [] ''a.1:module=x\<newline>b.1:module=y''"
  by (simp add: eval_defs)

section \<open>Splitting an option token\<close>

lemma count_list_0: "count_list s x = 0 \<longleftrightarrow> x \<notin> set s"
  by (induction s) auto

lemma py_split_one:
  "count_list s sep = 1 \<Longrightarrow>
   py_split sep s = [takeWhile (\<lambda>c. c \<noteq> sep) s, tl (dropWhile (\<lambda>c. c \<noteq> sep) s)]"
proof (induction s)
  case Nil
  then show ?case by simp
next
  case (Cons c cs)
  show ?case
  proof (cases "c = sep")
    case True
    with Cons.prems have "sep \<notin> set cs" by (simp add: count_list_0)
    with True show ?thesis by (simp add: py_split_no_sep)
  next
    case False
    with Cons.prems have "count_list cs sep = 1" by simp
    from Cons.IH[OF this] False show ?thesis by simp
  qed
qed

lemma unpack_other: "length xs \<noteq> 2 \<Longrightarrow> (case xs of [a, b] \<Rightarrow> f a b | _ \<Rightarrow> z) = z"
  by (auto split: list.splits)

text \<open>
  Claim C4, as amended. An option token is split at every \<^verbatim>\<open>=\<close> and the pieces are
  unpacked into exactly two names. So a token with exactly one \<^verbatim>\<open>=\<close> gives the name
  before it and the value after it, and every other token raises the ValueError of the
  unpacking: one without \<^verbatim>\<open>=\<close>, and one with two or more, that is, every token whose
  value contains \<^verbatim>\<open>=\<close>. When the parser gets to such a token, the whole parse fails
  with that error.
\<close>

theorem split_option_one_equals:
  "split_option option =
     (if count_list option CHR ''='' = 1
      then Inr (takeWhile (\<lambda>c. c \<noteq> CHR ''='') option, tl (dropWhile (\<lambda>c. c \<noteq> CHR ''='') option))
      else Inl UnpackError) \<and>
   (\<forall>attrs str before spec after acc outputfile pre post d.
      count_list option CHR ''='' \<noteq> 1 \<and>
      spec_lines str = before @ spec # after \<and> parse_specs attrs [] before = Inr acc \<and>
      py_split CHR '':'' spec = outputfile # pre @ option # post \<and>
      parse_options attrs [] pre = Inr d
      \<longrightarrow> parse_manpages_spec attrs str = Inl UnpackError)"
proof -
  have s: "split_option option =
     (if count_list option CHR ''='' = 1
      then Inr (takeWhile (\<lambda>c. c \<noteq> CHR ''='') option, tl (dropWhile (\<lambda>c. c \<noteq> CHR ''='') option))
      else Inl UnpackError)"
  proof (cases "count_list option CHR ''='' = 1")
    case True
    then show ?thesis by (simp add: split_option_def py_split_one)
  next
    case False
    then have "length (py_split CHR ''='' option) \<noteq> 2" by (simp add: length_py_split)
    with False show ?thesis by (simp add: split_option_def unpack_other)
  qed
  moreover have "parse_manpages_spec attrs str = Inl UnpackError"
    if "count_list option CHR ''='' \<noteq> 1"
       "spec_lines str = before @ spec # after" "parse_specs attrs [] before = Inr acc"
       "py_split CHR '':'' spec = outputfile # pre @ option # post"
       "parse_options attrs [] pre = Inr d"
    for attrs str before spec after acc outputfile pre post d
  proof -
    from s that(1) have "split_option option = Inl UnpackError" by simp
    from parse_fails_with[OF that(2,3) parse_spec_fails_split[OF that(4,5) this]]
    show ?thesis .
  qed
  ultimately show ?thesis by blast
qed

theorem split_option_one_equals_witness:
  "split_option ''description=a=b'' = Inl UnpackError \<and>
   split_option ''description'' = Inl UnpackError \<and>
   split_option ''description=ab'' = Inr (''description'', ''ab'') \<and>
   parse_manpages_spec [''description''] ''a.1:module=x:description=a=b'' = Inl UnpackError"
proof -
  have c: "count_list ''description=a=b'' CHR ''='' \<noteq> 1" by simp
  have 1: "spec_lines ''a.1:module=x:description=a=b'' = [] @ ''a.1:module=x:description=a=b'' # []"
    by (simp add: spec_lines_def py_strip_def isspace_def whitespace_def)
  have 2: "parse_specs [''description''] [] [] = Inr []" by simp
  have 3: "py_split CHR '':'' ''a.1:module=x:description=a=b''
      = ''a.1'' # [''module=x''] @ ''description=a=b'' # []"
    by simp
  have 4: "parse_options [''description''] [] [''module=x'']
      = Inr [(''import_type'', Str ''module''), (''import_from'', Str ''x'')]"
    by (simp add: split_option_def store_option_def has_key_def)
  have "parse_manpages_spec [''description''] ''a.1:module=x:description=a=b'' = Inl UnpackError"
    using split_option_one_equals[of "''description=a=b''"] c 1 2 3 4 by blast
  moreover have "split_option ''description=a=b'' = Inl UnpackError"
    "split_option ''description'' = Inl UnpackError"
    "split_option ''description=ab'' = Inr (''description'', ''ab'')"
    using split_option_one_equals[of "''description=a=b''"]
      split_option_one_equals[of "''description''"]
      split_option_one_equals[of "''description=ab''"] by simp_all
  ultimately show ?thesis by blast
qed

text \<open>
  Against claim C4 as stated: the token \<^verbatim>\<open>description=a=b\<close> is not the pair of
  \<^verbatim>\<open>description\<close> and \<^verbatim>\<open>a=b\<close>; it has three pieces and the parse of its text fails.
\<close>

theorem value_with_equals_counterexample:
  "split_option ''description=a=b'' = Inl UnpackError \<and>
   split_option ''description=a=b'' \<noteq> Inr (''description'', ''a=b'') \<and>
   parse_manpages_spec [''description''] ''a.1:module=x:description=a=b'' = Inl UnpackError"
  by (simp add: eval_defs)

section \<open>Where the specification text comes from\<close>

text \<open>A non-empty option value is taken as it is; the file is not looked at.\<close>

lemma manpages_setting_override:
  "manpages_setting str_of (Some (c # cs)) file = Inr (c # cs)"
  by (simp add: manpages_setting_def)

lemma manpages_setting_fallback:
  assumes "manpages = None \<or> manpages = Some []"
  shows "manpages_setting str_of manpages file =
     (case get_pyproject_settings str_of file of
        Inl e \<Rightarrow> Inl e
      | Inr None \<Rightarrow> Inl DistutilsOptionError
      | Inr (Some []) \<Rightarrow> Inl DistutilsOptionError
      | Inr (Some (c # cs)) \<Rightarrow> Inr (c # cs))"
  using assms by (auto simp: manpages_setting_def)

lemma join_lines_error: "join_lines vs = Inl e \<Longrightarrow> e = TypeError"
  by (induction vs rule: join_lines.induct) (auto simp: then_do_def split: sum.splits)

lemma get_pyproject_settings_found:
  assumes "map_of content ''tool'' = Some (TTable tool)"
      and "map_of tool ''build_manpages'' = Some (TTable cmd)"
      and "map_of cmd ''manpages'' = Some value"
  shows "get_pyproject_settings str_of (Document content) =
     (case value of
        TString s \<Rightarrow> Inr (Some s)
      | TArray vs \<Rightarrow> (case join_lines vs of Inl e \<Rightarrow> Inl e | Inr ss \<Rightarrow> Inr (Some (py_join [CHR 0x0A] ss)))
      | _ \<Rightarrow> Inr (Some (str_of value)))"
  using assms
  by (cases "value")
    (auto simp: get_pyproject_settings_def getitem_def then_do_def DEFAULT_CMD_NAME_def
          split: sum.splits error.splits dest: join_lines_error)

lemma get_pyproject_settings_absent:
  assumes "map_of content ''tool'' = None
     \<or> (\<exists>tool. map_of content ''tool'' = Some (TTable tool) \<and>
          (map_of tool ''build_manpages'' = None
           \<or> (\<exists>cmd. map_of tool ''build_manpages'' = Some (TTable cmd) \<and> map_of cmd ''manpages'' = None)))"
  shows "get_pyproject_settings str_of (Document content) = Inr None"
  using assms
  by (auto simp: get_pyproject_settings_def getitem_def then_do_def DEFAULT_CMD_NAME_def)

lemma get_pyproject_settings_undecodable:
  "get_pyproject_settings str_of Undecodable = Inr None"
  by (simp add: get_pyproject_settings_def)

text \<open>
  Claim C2 fails where \<^verbatim>\<open>pyproject.toml\<close> cannot be opened: with no option value (or an
  empty one), \<^verbatim>\<open>get_pyproject_settings\<close> is called, \<^verbatim>\<open>open\<close> raises, only
  \<^verbatim>\<open>TOMLDecodeError\<close> is caught around it, and \<^verbatim>\<open>finalize_options\<close> ends with that OSError
  instead of the DistutilsOptionError that says the option is required.
\<close>

theorem finalize_options_unreadable_pyproject:
  "finalize_options attrs complete str_of None Unreadable = Inl OSError \<and>
   finalize_options attrs complete str_of (Some []) Unreadable = Inl OSError"
  by (simp add: finalize_options_def manpages_setting_def get_pyproject_settings_def then_do_def)

end
